theory Spec2Isabelle
  imports Main
begin

section \<open>The delete builder of the IntSID entity\<close>

text \<open>
  The file \<^verbatim>\<open>entc/integration/customid/ent/intsid_delete.go\<close> holds the builders
  \<^verbatim>\<open>IntSIDDelete\<close> and \<^verbatim>\<open>IntSIDDeleteOne\<close>. Go errors are values of the
  datatype \<open>error\<close>; a Go \<^verbatim>\<open>error\<close> that may be nil is an \<open>error option\<close>.
\<close>

datatype error =
    UnexpectedMutationType string
      \<comment> \<open>\<^verbatim>\<open>fmt.Errorf("unexpected mutation type %T", m)\<close>\<close>
  | UninitializedHook
      \<comment> \<open>\<^verbatim>\<open>fmt.Errorf("ent: uninitialized hook (forgotten import ent/runtime?)")\<close>\<close>
  | NotFoundError string
      \<comment> \<open>\<^verbatim>\<open>&NotFoundError{label}\<close>\<close>
  | OtherError string
      \<comment> \<open>an error made by a hook or by the driver\<close>

text \<open>\<^verbatim>\<open>Value\<close> is Go's empty interface: what a mutator hands back beside its error.\<close>

datatype val = NilV | IntV int | AnyV string

text \<open>
  The constants \<^verbatim>\<open>intsid.Label\<close>, \<^verbatim>\<open>intsid.Table\<close> and \<^verbatim>\<open>intsid.FieldID\<close>
  are declared in the package \<^verbatim>\<open>intsid\<close>, which is not among the sources; the
  functions below take them as a parameter.
\<close>

record intsid_pkg =
  Label :: string
  Table :: string
  FieldID :: string

subsection \<open>Predicates and the delete specification\<close>

text \<open>
  The predicate types of \<^verbatim>\<open>predicate/predicate.go\<close> are all \<^verbatim>\<open>func(*sql.Selector)\<close>:
  a procedure that changes the selector it is given in place. With the selector passed
  explicitly it is a function from selectors to selectors. The type of selectors is left open.
\<close>

type_synonym 'sel predicate = "'sel \<Rightarrow> 'sel"

datatype field_type = TypeInt | TypeInt64 | TypeString | TypeUUID

record FieldSpec =
  fs_Type :: field_type
  fs_Column :: string

record NodeSpec =
  ns_Table :: string
  ns_ID :: FieldSpec

record 'sel DeleteSpec =
  Node :: NodeSpec
  Predicate :: "'sel predicate option"

text \<open>
  \<^verbatim>\<open>IntSIDMutation\<close>: of its fields the builder reads \<^verbatim>\<open>predicates\<close> and writes
  \<^verbatim>\<open>done\<close> (here \<open>done_flag\<close>). \<^verbatim>\<open>Mutation\<close> is an interface; a value of it is
  either (a pointer to) an \<^verbatim>\<open>IntSIDMutation\<close> or a value of another type, kept by the name
  that \<^verbatim>\<open>%T\<close> prints.
  The mutation object is passed by value here: the fields a hook changes before it calls the
  next mutator reach the terminal step, as with the pointer.
\<close>

record 'sel IntSIDMutation =
  predicates :: "'sel predicate list"
  done_flag :: bool

datatype 'sel mutation =
    IntSIDMutationP "'sel IntSIDMutation"
  | OtherMutation string

text \<open>
  The loop \<^verbatim>\<open>for i := range ps { ps[i](selector) }\<close> inside the closure that
  \<^verbatim>\<open>sqlExec\<close> stores in \<^verbatim>\<open>_spec.Predicate\<close>.
\<close>

fun apply_predicates :: "'sel predicate list \<Rightarrow> 'sel \<Rightarrow> 'sel" where
  "apply_predicates [] selector = selector"
| "apply_predicates (p # ps) selector = apply_predicates ps (p selector)"

text \<open>The \<^verbatim>\<open>DeleteSpec\<close> that \<^verbatim>\<open>sqlExec\<close> builds before it calls the store.\<close>

definition delete_spec :: "intsid_pkg \<Rightarrow> 'sel predicate list \<Rightarrow> 'sel DeleteSpec" where
  "delete_spec pk ps =
     (let spec = \<lparr>Node = \<lparr>ns_Table = Table pk,
                           ns_ID = \<lparr>fs_Type = TypeInt64, fs_Column = FieldID pk\<rparr>\<rparr>,
                  Predicate = None\<rparr>
      in if length ps > 0 then spec\<lparr>Predicate := Some (apply_predicates ps)\<rparr> else spec)"

subsection \<open>The state of one call of Exec\<close>

text \<open>
  \<^verbatim>\<open>sqlgraph.DeleteNodes(ctx, isd.driver, _spec)\<close> is the store round-trip. The driver is
  an interface value held by the builder, and \<^verbatim>\<open>DeleteNodes\<close> is not among the
  sources, so the round-trip is a parameter of the builder: from the delete specification and
  the state of the store to the pair Go returns and the new state of the store.
\<close>

type_synonym ('sel, 'db) driver = "'sel DeleteSpec \<Rightarrow> 'db \<Rightarrow> (int \<times> error option) \<times> 'db"

text \<open>
  What the body of \<^verbatim>\<open>Exec\<close> and the closure it builds read and write: the store behind
  the driver, the builder's field \<^verbatim>\<open>isd.mutation\<close>, and the two local variables
  \<^verbatim>\<open>affected\<close> and \<^verbatim>\<open>err\<close> that the closure captures.
\<close>

record ('sel, 'db) frame =
  store :: 'db
  isd_mutation :: "'sel IntSIDMutation"
  affected :: int
  err :: "error option"

text \<open>
  \<^verbatim>\<open>Mutator.Mutate(ctx, m)\<close> returns \<^verbatim>\<open>(Value, error)\<close>; \<^verbatim>\<open>Hook\<close> is
  \<^verbatim>\<open>func(Mutator) Mutator\<close>. Calling a hook with the next mutator returns the wrapped
  mutator; the call runs Go code of the hook's author and may itself act on the store, so in
  the model it takes and returns the state of the store. A nil hook is \<open>None\<close>. A hook
  written in Go cannot reach the two local variables of \<^verbatim>\<open>Exec\<close>; the hooks named in
  the theorems below leave them alone.
\<close>

type_synonym ('sel, 'db) mutator =
  "'sel mutation \<Rightarrow> ('sel, 'db) frame \<Rightarrow> (val \<times> error option) \<times> ('sel, 'db) frame"

type_synonym ('sel, 'db) hook =
  "('sel, 'db) mutator \<Rightarrow> 'db \<Rightarrow> ('sel, 'db) mutator \<times> 'db"


definition pure_hook ::
  "(('sel, 'db) mutator \<Rightarrow> ('sel, 'db) mutator) \<Rightarrow> ('sel, 'db) hook"
where
  "pure_hook f next db = (f next, db)"

record ('sel, 'db) IntSIDDelete =
  driver :: "('sel, 'db) driver"
  hooks :: "('sel, 'db) hook option list"
  mutation :: "'sel IntSIDMutation"

subsection \<open>sqlExec, Exec and ExecX\<close>

definition sqlExec ::
  "intsid_pkg \<Rightarrow> ('sel, 'db) driver \<Rightarrow> ('sel, 'db) frame \<Rightarrow> (int \<times> error option) \<times> ('sel, 'db) frame"
where
  "sqlExec pk drv fr =
     (let (r, db') = drv (delete_spec pk (predicates (isd_mutation fr))) (store fr)
      in (r, fr\<lparr>store := db'\<rparr>))"

text \<open>
  The terminal mutator, the \<^verbatim>\<open>MutateFunc\<close> closure of \<^verbatim>\<open>Exec\<close>. The pointer
  \<^verbatim>\<open>mutation\<close> on which it sets \<^verbatim>\<open>done\<close> is the one it has just stored in
  \<^verbatim>\<open>isd.mutation\<close>.
\<close>

definition terminal :: "intsid_pkg \<Rightarrow> ('sel, 'db) driver \<Rightarrow> ('sel, 'db) mutator" where
  "terminal pk drv m fr =
     (case m of
        OtherMutation ty \<Rightarrow> ((NilV, Some (UnexpectedMutationType ty)), fr)
      | IntSIDMutationP mu \<Rightarrow>
          (let ((n, e), fr1) = sqlExec pk drv (fr\<lparr>isd_mutation := mu\<rparr>);
               fr2 = fr1\<lparr>affected := n, err := e\<rparr>;
               fr3 = fr2\<lparr>isd_mutation := (isd_mutation fr2)\<lparr>done_flag := True\<rparr>\<rparr>
           in ((IntV n, e), fr3)))"

text \<open>
  The loop \<^verbatim>\<open>for i := len(isd.hooks) - 1; i >= 0; i--\<close>. The counter of the model is
  \<open>i + 1\<close>, so that it is a natural number and the loop ends at \<open>0\<close>; \<open>None\<close> is the
  early return on a nil hook. The call \<^verbatim>\<open>isd.hooks[i](mut)\<close> of each hook above a nil
  entry has happened when the nil entry is found, so the loop returns the state of the store
  with its result.
\<close>

fun hook_loop ::
  "('sel, 'db) hook option list \<Rightarrow> nat \<Rightarrow> ('sel, 'db) mutator \<Rightarrow> 'db
     \<Rightarrow> ('sel, 'db) mutator option \<times> 'db"
where
  "hook_loop hs 0 mut db = (Some mut, db)"
| "hook_loop hs (Suc i) mut db =
     (case hs ! i of
        None \<Rightarrow> (None, db)
      | Some h \<Rightarrow> (case h mut db of (mut1, db1) \<Rightarrow> hook_loop hs i mut1 db1))"

definition frame0 :: "('sel, 'db) IntSIDDelete \<Rightarrow> 'db \<Rightarrow> ('sel, 'db) frame" where
  "frame0 isd db = \<lparr>store = db, isd_mutation = mutation isd, affected = 0, err = None\<rparr>"

definition Exec ::
  "intsid_pkg \<Rightarrow> ('sel, 'db) IntSIDDelete \<Rightarrow> 'db \<Rightarrow> (int \<times> error option) \<times> ('sel, 'db) frame"
where
  "Exec pk isd db =
     (if length (hooks isd) = 0 then
        (let ((n, e), fr1) = sqlExec pk (driver isd) (frame0 isd db);
             fr2 = fr1\<lparr>affected := n, err := e\<rparr>
         in ((affected fr2, err fr2), fr2))
      else
        (case hook_loop (hooks isd) (length (hooks isd)) (terminal pk (driver isd)) db of
           (None, db1) \<Rightarrow> ((0, Some UninitializedHook), frame0 isd db1)
         | (Some mut, db1) \<Rightarrow>
             (let ((v, e), fr1) = mut (IntSIDMutationP (mutation isd)) (frame0 isd db1)
              in (case e of
                    Some x \<Rightarrow> ((0, Some x), fr1)
                  | None \<Rightarrow> ((affected fr1, err fr1), fr1)))))"

text \<open>A call that panics ends in \<open>Panic\<close>; one that returns ends in \<open>Returns\<close>.\<close>

datatype 'a outcome = Panic error | Returns 'a

definition ExecX ::
  "intsid_pkg \<Rightarrow> ('sel, 'db) IntSIDDelete \<Rightarrow> 'db \<Rightarrow> int outcome \<times> ('sel, 'db) frame"
where
  "ExecX pk isd db =
     (let ((n, e), fr) = Exec pk isd db
      in (case e of Some x \<Rightarrow> (Panic x, fr) | None \<Rightarrow> (Returns n, fr)))"

subsection \<open>IntSIDDeleteOne\<close>

record ('sel, 'db) IntSIDDeleteOne =
  isdo_isd :: "('sel, 'db) IntSIDDelete"

definition DeleteOne_Exec ::
  "intsid_pkg \<Rightarrow> ('sel, 'db) IntSIDDeleteOne \<Rightarrow> 'db \<Rightarrow> error option \<times> ('sel, 'db) frame"
where
  "DeleteOne_Exec pk isdo db =
     (let ((n, e), fr) = Exec pk (isdo_isd isdo) db
      in if e \<noteq> None then (e, fr)
         else if n = 0 then (Some (NotFoundError (Label pk)), fr)
         else (None, fr))"

definition DeleteOne_ExecX ::
  "intsid_pkg \<Rightarrow> ('sel, 'db) IntSIDDeleteOne \<Rightarrow> 'db \<Rightarrow> unit outcome \<times> ('sel, 'db) frame"
where
  "DeleteOne_ExecX pk isdo db =
     (case ExecX pk (isdo_isd isdo) db of
        (Panic x, fr) \<Rightarrow> (Panic x, fr)
      | (Returns n, fr) \<Rightarrow> (Returns (), fr))"

section \<open>Selectors and the store\<close>

text \<open>
  Modelled from the spec: \<^verbatim>\<open>sql.Selector\<close>, its method \<^verbatim>\<open>Where\<close> and
  \<^verbatim>\<open>sqlgraph.DeleteNodes\<close> are not among the sources. Section 4.1 of the specification: a
  predicate takes a statement builder and applies a boolean condition to it by mutating the
  builder in place, and predicates compose by conjunction when more than one is accumulated.
  Section 4.2: Delete deletes the matching rows and returns the count of rows affected; zero
  affected rows is not an error by itself.

  A condition is a test on a row or a conjunction; the selector holds the table it reads from
  and the condition built so far, if any. A store maps a table name to the rows of the table.
\<close>

datatype 'r P = Cond "'r \<Rightarrow> bool" | And "'r P" "'r P"

record 'r Selector =
  sel_from :: string
  sel_where :: "'r P option"

definition Where :: "'r P \<Rightarrow> 'r Selector predicate" where
  "Where p s =
     s\<lparr>sel_where := (case sel_where s of None \<Rightarrow> Some p | Some q \<Rightarrow> Some (And q p))\<rparr>"

fun holds :: "'r P \<Rightarrow> 'r \<Rightarrow> bool" where
  "holds (Cond c) r = c r"
| "holds (And p q) r = (holds p r \<and> holds q r)"

text \<open>The tests of a condition, from left to right: the order of the generated text.\<close>

fun conds :: "'r P \<Rightarrow> ('r \<Rightarrow> bool) list" where
  "conds (Cond c) = [c]"
| "conds (And p q) = conds p @ conds q"

definition selects :: "'r Selector \<Rightarrow> 'r \<Rightarrow> bool" where
  "selects s r = (case sel_where s of None \<Rightarrow> True | Some p \<Rightarrow> holds p r)"

definition sel_conds :: "'r Selector \<Rightarrow> ('r \<Rightarrow> bool) list" where
  "sel_conds s = (case sel_where s of None \<Rightarrow> [] | Some p \<Rightarrow> conds p)"

type_synonym 'r tables = "string \<Rightarrow> 'r list"

definition DeleteNodes :: "('r Selector, 'r tables) driver" where
  "DeleteNodes spec db =
     (let t = ns_Table (Node spec);
          sel0 = \<lparr>sel_from = t, sel_where = None\<rparr>;
          sel = (case Predicate spec of None \<Rightarrow> sel0 | Some pred \<Rightarrow> pred sel0);
          kept = filter (\<lambda>r. \<not> selects sel r) (db t)
      in ((int (length (db t)) - int (length kept), None), db(t := kept)))"

text \<open>The rows that the statement of \<^verbatim>\<open>sqlExec\<close> selects in such a store.\<close>

definition matching :: "intsid_pkg \<Rightarrow> 'r Selector predicate list \<Rightarrow> 'r tables \<Rightarrow> 'r list" where
  "matching pk ps db =
     filter (selects (apply_predicates ps \<lparr>sel_from = Table pk, sel_where = None\<rparr>))
       (db (Table pk))"

section \<open>The privacy layer\<close>

text \<open>
  Modelled from the spec: the package \<^verbatim>\<open>privacy\<close> (the evaluation of a policy's rules and
  \<^verbatim>\<open>DecisionContext\<close>) is not among the sources; the repository describes it in
  \<^verbatim>\<open>doc/md/privacy.md\<close>. Section 4.4 of the specification: the rules of a policy are
  evaluated in order; Allow ends the evaluation in Allowed and Deny in Denied with the reason,
  the remaining rules not being evaluated; Skip advances to the next rule; any other error of a
  rule is treated as Deny; if all rules skip, the terminal state is the configured default,
  which the specification requires to be explicit per entity and leaves open between Deny and
  Allow; and a decision bound to the context is returned before any rule runs. The configured
  default is the parameter \<open>dflt\<close> of the evaluation. \<^verbatim>\<open>privacy.md\<close> adds that Skip is
  equivalent to returning a nil error, and describes the evaluation at the default Allowed:
  "If all rules are evaluated without returning an error, the evaluation finishes
  successfully."

  A rule returns a \<open>decision\<close>; \<open>NoError\<close> is the nil error and \<open>Failure\<close> any error that is
  none of the three decisions. A rule may also act on the operation and its surroundings
  (a filter rule narrows the operation's predicate), so it takes and returns a state.
\<close>

datatype decision = Allow | Deny string | Skip | NoError | Failure string

datatype verdict = Allowed | Denied string

type_synonym ('c, 'o, 's) rule = "'c \<Rightarrow> 'o \<Rightarrow> 's \<Rightarrow> decision \<times> 's"

fun eval_rules ::
  "verdict \<Rightarrow> ('c, 'o, 's) rule list \<Rightarrow> 'c \<Rightarrow> 'o \<Rightarrow> 's \<Rightarrow> verdict \<times> 's"
where
  "eval_rules dflt [] c op s = (dflt, s)"
| "eval_rules dflt (r # rs) c op s =
     (case r c op s of
        (Allow, s1) \<Rightarrow> (Allowed, s1)
      | (Deny reason, s1) \<Rightarrow> (Denied reason, s1)
      | (Failure reason, s1) \<Rightarrow> (Denied reason, s1)
      | (Skip, s1) \<Rightarrow> eval_rules dflt rs c op s1
      | (NoError, s1) \<Rightarrow> eval_rules dflt rs c op s1)"

text \<open>
  The execution context carries the viewer of the examples of \<^verbatim>\<open>privacy.md\<close> and the
  decision bound by \<^verbatim>\<open>privacy.DecisionContext\<close>, if any. A bound decision is a terminal
  one, Allow or Deny: \<^verbatim>\<open>privacy.md\<close> binds Allow, and neither text says what binding
  Skip would mean.
\<close>

datatype role = Admin | View

record Context =
  ctx_viewer :: "role option"
  ctx_decision :: "verdict option"

definition DecisionContext :: "Context \<Rightarrow> verdict \<Rightarrow> Context" where
  "DecisionContext parent d = parent\<lparr>ctx_decision := Some d\<rparr>"

definition eval_policy ::
  "verdict \<Rightarrow> (Context, 'o, 's) rule list \<Rightarrow> Context \<Rightarrow> 'o \<Rightarrow> 's \<Rightarrow> verdict \<times> 's"
where
  "eval_policy dflt rules c op s =
     (case ctx_decision c of
        Some d \<Rightarrow> (d, s)
      | None \<Rightarrow> eval_rules dflt rules c op s)"

text \<open>
  Modelled from the spec: section 6 names \<^verbatim>\<open>Execute(MutationSpec, ctx)\<close>, and section 4.4
  says that a Denied terminal state surfaces as a typed error and that denial is checked
  before any statement is issued for the mutation. \<open>apply_op\<close> is the operation that runs
  once the policy allows it.
\<close>

datatype policy_error = PolicyDenied string

definition Execute ::
  "verdict \<Rightarrow> (Context, 'o, 's) rule list \<Rightarrow> Context \<Rightarrow> 'o \<Rightarrow> 's
     \<Rightarrow> ('o \<Rightarrow> 's \<Rightarrow> 'a \<times> 's) \<Rightarrow> (policy_error + 'a) \<times> 's"
where
  "Execute dflt rules c op s apply_op =
     (case eval_policy dflt rules c op s of
        (Allowed, s1) \<Rightarrow> (let (a, s2) = apply_op op s1 in (Inr a, s2))
      | (Denied reason, s1) \<Rightarrow> (Inl (PolicyDenied reason), s1))"

text \<open>
  Two observers of a rule list, used to state what an evaluation does: \<open>all_skip\<close> holds
  when every rule of the list, evaluated in order from the given state, returns Skip or nil;
  \<open>run_all\<close> is the state after every rule of the list has been evaluated in order.
\<close>

fun is_skip :: "decision \<Rightarrow> bool" where
  "is_skip Skip = True"
| "is_skip NoError = True"
| "is_skip d = False"

fun all_skip :: "('c, 'o, 's) rule list \<Rightarrow> 'c \<Rightarrow> 'o \<Rightarrow> 's \<Rightarrow> bool" where
  "all_skip [] c op s = True"
| "all_skip (r # rs) c op s = (is_skip (fst (r c op s)) \<and> all_skip rs c op (snd (r c op s)))"

fun run_all :: "('c, 'o, 's) rule list \<Rightarrow> 'c \<Rightarrow> 'o \<Rightarrow> 's \<Rightarrow> 's" where
  "run_all [] c op s = s"
| "run_all (r # rs) c op s = run_all rs c op (snd (r c op s))"

text \<open>
  Rules of \<^verbatim>\<open>privacy.md\<close>: \<^verbatim>\<open>rule.DenyIfNoViewer\<close> of the admin example, and the
  generated \<^verbatim>\<open>privacy.AlwaysDenyRule\<close>.
\<close>

definition DenyIfNoViewer :: "(Context, 'o, 's) rule" where
  "DenyIfNoViewer c op s =
     (case ctx_viewer c of
        None \<Rightarrow> (Deny ''viewer-context is missing'', s)
      | Some view \<Rightarrow> (Skip, s))"

definition AlwaysDenyRule :: "('c, 'o, 's) rule" where
  "AlwaysDenyRule c op s = (Deny [], s)"

section \<open>Example values\<close>

text \<open>
  Concrete builders on which the theorems below are run. The package constants are example
  values. \<open>journal_driver\<close> is a store that only keeps a journal of the statements it
  was sent and reports one row deleted; \<open>failing_driver\<close> answers every statement with an
  error. The wrapped mutator of \<open>trace_hook\<close> writes to the journal before and after it
  calls the next mutator; that of \<open>short_circuit\<close> never calls the next mutator, acts on the
  store and returns a value with a nil error; that of \<open>replace_value\<close> calls the next
  mutator and returns another value in place of the one it got; that of \<open>failing_hook\<close>
  returns an error without calling the next mutator.
\<close>

definition example_pkg :: intsid_pkg where
  "example_pkg = \<lparr>Label = ''int_sid'', Table = ''int_sids'', FieldID = ''id''\<rparr>"

definition journal_driver :: "('sel, string list) driver" where
  "journal_driver spec journal = ((1, None), journal @ [''DELETE FROM '' @ ns_Table (Node spec)])"

definition failing_driver :: "error \<Rightarrow> ('sel, 'db) driver" where
  "failing_driver x spec db = ((0, Some x), db)"

definition trace_hook ::
  "string \<Rightarrow> ('sel, string list) mutator \<Rightarrow> ('sel, string list) mutator"
where
  "trace_hook name next m fr =
     (let fr1 = fr\<lparr>store := store fr @ [name @ '' before'']\<rparr>;
          (r, fr2) = next m fr1
      in (r, fr2\<lparr>store := store fr2 @ [name @ '' after'']\<rparr>))"




definition no_predicates :: "'sel IntSIDMutation" where
  "no_predicates = \<lparr>predicates = [], done_flag = False\<rparr>"

definition traced_delete :: "(int Selector, string list) IntSIDDelete" where
  "traced_delete =
     \<lparr>driver = journal_driver,
      hooks = [Some (pure_hook (trace_hook ''h1'')), Some (pure_hook (trace_hook ''h2''))],
      mutation = no_predicates\<rparr>"







text \<open>
  A table of four rows, a row being its id, and two conditions in the shape of the generated
  predicates \<^verbatim>\<open>intsid.IDGT\<close> and \<^verbatim>\<open>intsid.IDLT\<close>.
\<close>

definition int_rows :: "int tables" where
  "int_rows t = (if t = ''int_sids'' then [1, 2, 3, 4] else [])"

definition IDGT :: "int \<Rightarrow> int Selector predicate" where
  "IDGT k = Where (Cond (\<lambda>r. k < r))"

definition IDLT :: "int \<Rightarrow> int Selector predicate" where
  "IDLT k = Where (Cond (\<lambda>r. r < k))"

definition delete_where ::
  "int Selector predicate list \<Rightarrow> (int Selector, int tables) IntSIDDelete"
where
  "delete_where ps =
     \<lparr>driver = DeleteNodes, hooks = [], mutation = \<lparr>predicates = ps, done_flag = False\<rparr>\<rparr>"

definition broken_delete :: "(int Selector, int tables) IntSIDDelete" where
  "broken_delete =
     \<lparr>driver = failing_driver (OtherError ''connection lost''), hooks = [],
      mutation = no_predicates\<rparr>"

text \<open>
  For the privacy layer: a context without viewer and without bound decision, a rule that
  writes its name to a log and returns a fixed decision, and the operation of creating one
  more row.
\<close>

definition background :: Context where
  "background = \<lparr>ctx_viewer = None, ctx_decision = None\<rparr>"

definition logged :: "string \<Rightarrow> decision \<Rightarrow> ('c, 'o, string list) rule" where
  "logged name d c op s = (d, s @ [name])"

definition create_row :: "unit \<Rightarrow> nat \<Rightarrow> string \<times> nat" where
  "create_row op n = (''created'', Suc n)"


section \<open>Properties of the hook loop\<close>

lemma hook_loop_all_set:
  "k \<le> length hs \<Longrightarrow>
     hook_loop (map Some hs) k mut db
       = (case foldr (\<lambda>g (m, d). g m d) (take k hs) (mut, db) of (m, d) \<Rightarrow> (Some m, d))"
proof (induction k arbitrary: mut db)
  case 0
  show ?case by simp
next
  case (Suc i)
  then have i: "i < length hs" by simp
  obtain m1 d1 where step: "(hs ! i) mut db = (m1, d1)"
    by (cases "(hs ! i) mut db")
  have "hook_loop (map Some hs) (Suc i) mut db = hook_loop (map Some hs) i m1 d1"
    using i step by simp
  also have "\<dots> = (case foldr (\<lambda>g (m, d). g m d) (take i hs) (m1, d1) of
                      (m, d) \<Rightarrow> (Some m, d))"
    using Suc.IH [of m1 d1] i by simp
  also have "\<dots> = (case foldr (\<lambda>g (m, d). g m d) (take (Suc i) hs) (mut, db) of
                      (m, d) \<Rightarrow> (Some m, d))"
    using i step by (simp add: take_Suc_conv_app_nth)
  finally show ?case .
qed



lemma foldr_pure_hooks:
  "foldr (\<lambda>g (m, d). g m d) (map pure_hook fs) (mut, db) = (foldr (\<lambda>g m. g m) fs mut, db)"
  by (induction fs) (simp_all add: pure_hook_def)



section \<open>The mutator chain of Exec\<close>

text \<open>
  C4. For a non-empty hook list \<open>h1, ..., hn\<close> without a nil entry, the loop of
  \<^verbatim>\<open>Exec\<close> folds the hooks from the last one inward around the terminal mutator: \<open>hn\<close>
  is called on the terminal mutator, each earlier hook on what the later ones returned, and
  \<open>h1\<close> last, so the mutator it builds is \<open>h1 (h2 (... (hn terminal)))\<close>.
  \<^verbatim>\<open>Exec\<close> runs that mutator on the builder's mutation, so the first-registered hook is
  the first to receive the mutation and the last to hand back the result, which is the result
  \<^verbatim>\<open>Exec\<close> inspects. For hooks whose call has no effect of its own, the mutator is
  the plain composition and it starts in the initial state.
\<close>

theorem Exec_chain_order:
  assumes "hooks isd = map Some (h # hs)"
  shows "hook_loop (hooks isd) (length (hooks isd)) (terminal pk (driver isd)) db
           = (case foldr (\<lambda>g (m, d). g m d) hs (terminal pk (driver isd), db) of
                (m, d) \<Rightarrow> (case h m d of (m1, d1) \<Rightarrow> (Some m1, d1)))
       \<and> Exec pk isd db =
           (case foldr (\<lambda>g (m, d). g m d) hs (terminal pk (driver isd), db) of
              (m, d) \<Rightarrow>
                (case h m d of
                   (m1, d1) \<Rightarrow>
                     (let ((v, e), fr1) = m1 (IntSIDMutationP (mutation isd)) (frame0 isd d1)
                      in (case e of
                            Some x \<Rightarrow> ((0, Some x), fr1)
                          | None \<Rightarrow> ((affected fr1, err fr1), fr1)))))
       \<and> (h = pure_hook f \<and> hs = map pure_hook fs
          \<longrightarrow> hook_loop (hooks isd) (length (hooks isd)) (terminal pk (driver isd)) db
                = (Some (f (foldr (\<lambda>g m. g m) fs (terminal pk (driver isd)))), db)
            \<and> Exec pk isd db =
                (let ((v, e), fr1) =
                       f (foldr (\<lambda>g m. g m) fs (terminal pk (driver isd)))
                         (IntSIDMutationP (mutation isd)) (frame0 isd db)
                 in (case e of
                       Some x \<Rightarrow> ((0, Some x), fr1)
                     | None \<Rightarrow> ((affected fr1, err fr1), fr1))))"
proof -
  have loop: "hook_loop (hooks isd) (length (hooks isd)) (terminal pk (driver isd)) db
           = (case foldr (\<lambda>g (m, d). g m d) hs (terminal pk (driver isd), db) of
                (m, d) \<Rightarrow> (case h m d of (m1, d1) \<Rightarrow> (Some m1, d1)))"
    using hook_loop_all_set [of "length (h # hs)" "h # hs" "terminal pk (driver isd)" db] assms
    by (simp split: prod.splits)
  have ne: "length (hooks isd) \<noteq> 0"
    using assms by simp
  have run: "Exec pk isd db =
           (case foldr (\<lambda>g (m, d). g m d) hs (terminal pk (driver isd), db) of
              (m, d) \<Rightarrow>
                (case h m d of
                   (m1, d1) \<Rightarrow>
                     (let ((v, e), fr1) = m1 (IntSIDMutationP (mutation isd)) (frame0 isd d1)
                      in (case e of
                            Some x \<Rightarrow> ((0, Some x), fr1)
                          | None \<Rightarrow> ((affected fr1, err fr1), fr1)))))"
    using ne loop by (simp add: Exec_def split: prod.splits)
  have plain: "h = pure_hook f \<and> hs = map pure_hook fs
          \<longrightarrow> hook_loop (hooks isd) (length (hooks isd)) (terminal pk (driver isd)) db
                = (Some (f (foldr (\<lambda>g m. g m) fs (terminal pk (driver isd)))), db)
            \<and> Exec pk isd db =
                (let ((v, e), fr1) =
                       f (foldr (\<lambda>g m. g m) fs (terminal pk (driver isd)))
                         (IntSIDMutationP (mutation isd)) (frame0 isd db)
                 in (case e of
                       Some x \<Rightarrow> ((0, Some x), fr1)
                     | None \<Rightarrow> ((affected fr1, err fr1), fr1)))"
    using loop run foldr_pure_hooks [of fs "terminal pk (driver isd)" db]
    by (simp add: pure_hook_def)
  from loop run plain show ?thesis by blast
qed

theorem Exec_chain_order_witness:
  "hooks traced_delete = map Some [pure_hook (trace_hook ''h1''), pure_hook (trace_hook ''h2'')]
   \<and> fst (Exec example_pkg traced_delete []) = (1, None)
   \<and> store (snd (Exec example_pkg traced_delete []))
     = [''h1 before'', ''h2 before'', ''DELETE FROM int_sids'', ''h2 after'', ''h1 after'']"
proof -
  have registered: "hooks traced_delete
      = map Some (pure_hook (trace_hook ''h1'') # [pure_hook (trace_hook ''h2'')])"
    by (simp add: traced_delete_def)
  note chain =
    Exec_chain_order [OF registered, of example_pkg "[]" "trace_hook ''h1''" "[trace_hook ''h2'']",
      THEN conjunct2, THEN conjunct2]
  have journal: "Exec example_pkg traced_delete [] =
      (let ((v, e), fr1) =
             trace_hook ''h1'' (foldr (\<lambda>g m. g m) [trace_hook ''h2'']
                 (terminal example_pkg (driver traced_delete)))
               (IntSIDMutationP (mutation traced_delete)) (frame0 traced_delete [])
       in (case e of
             Some x \<Rightarrow> ((0, Some x), fr1)
           | None \<Rightarrow> ((affected fr1, err fr1), fr1)))"
    using chain by simp
  show ?thesis
    using registered
    by (simp add: journal)
       (simp add: traced_delete_def trace_hook_def terminal_def sqlExec_def delete_spec_def
          journal_driver_def frame0_def example_pkg_def no_predicates_def)
qed






section \<open>Zero rows, NotFoundError and ExecX\<close>

lemma length_filter_split:
  "int (length xs) - int (length (filter (\<lambda>r. \<not> P r) xs)) = int (length (filter P xs))"
  using sum_length_filter_compl [of P xs] by simp

lemma DeleteNodes_count:
  "DeleteNodes (delete_spec pk ps) db
     = ((int (length (matching pk ps db)), None),
        db(Table pk := filter (\<lambda>r. r \<notin> set (matching pk ps db)) (db (Table pk))))"
  by (cases ps)
    (auto simp: DeleteNodes_def delete_spec_def matching_def Let_def length_filter_split
       intro!: filter_cong)

lemma Exec_no_hooks:
  "hooks isd = [] \<Longrightarrow>
     fst (Exec pk isd db) = fst (driver isd (delete_spec pk (predicates (mutation isd))) db)
   \<and> store (snd (Exec pk isd db))
       = snd (driver isd (delete_spec pk (predicates (mutation isd))) db)"
  by (simp add: Exec_def sqlExec_def frame0_def split: prod.splits)

text \<open>
  C6. When no row matches the predicates of the delete, \<^verbatim>\<open>IntSIDDelete.Exec\<close> returns
  the count 0 with a nil error and the table is as before (shown for a builder without hooks
  on the store of section "Selectors and the store"; with hooks the result is the chain's).
  \<^verbatim>\<open>IntSIDDeleteOne.Exec\<close> turns the outcome \<open>(0, nil)\<close> of \<^verbatim>\<open>Exec\<close> into a
  \<^verbatim>\<open>NotFoundError\<close> with the label of the entity, returns nil when the count is not 0
  (so for one or more rows), and returns the error of \<^verbatim>\<open>Exec\<close> when there is one.
\<close>

theorem zero_rows_not_found:
  "(hooks isd = [] \<and> driver isd = DeleteNodes
      \<and> matching pk (predicates (mutation isd)) db = []
      \<longrightarrow> fst (Exec pk isd db) = (0, None)
        \<and> store (snd (Exec pk isd db)) (Table pk) = db (Table pk))
   \<and> (fst (Exec pk isd db) = (0, None)
      \<longrightarrow> fst (DeleteOne_Exec pk \<lparr>isdo_isd = isd\<rparr> db) = Some (NotFoundError (Label pk)))
   \<and> (fst (Exec pk isd db) = (n, None) \<and> n \<noteq> 0
      \<longrightarrow> fst (DeleteOne_Exec pk \<lparr>isdo_isd = isd\<rparr> db) = None)
   \<and> (fst (Exec pk isd db) = (n, Some x)
      \<longrightarrow> fst (DeleteOne_Exec pk \<lparr>isdo_isd = isd\<rparr> db) = Some x)"
proof -
  have none_match: "hooks isd = [] \<and> driver isd = DeleteNodes
      \<and> matching pk (predicates (mutation isd)) db = []
      \<longrightarrow> fst (Exec pk isd db) = (0, None)
        \<and> store (snd (Exec pk isd db)) (Table pk) = db (Table pk)"
    using Exec_no_hooks [of isd pk db] DeleteNodes_count [of pk "predicates (mutation isd)" db]
    by auto
  have zero: "fst (Exec pk isd db) = (0, None)
      \<longrightarrow> fst (DeleteOne_Exec pk \<lparr>isdo_isd = isd\<rparr> db) = Some (NotFoundError (Label pk))"
    by (simp add: DeleteOne_Exec_def split: prod.splits)
  have some: "fst (Exec pk isd db) = (n, None) \<and> n \<noteq> 0
      \<longrightarrow> fst (DeleteOne_Exec pk \<lparr>isdo_isd = isd\<rparr> db) = None"
    by (simp add: DeleteOne_Exec_def split: prod.splits)
  have failed: "fst (Exec pk isd db) = (n, Some x)
      \<longrightarrow> fst (DeleteOne_Exec pk \<lparr>isdo_isd = isd\<rparr> db) = Some x"
    by (simp add: DeleteOne_Exec_def split: prod.splits)
  from none_match zero some failed show ?thesis by blast
qed

lemma example_matching:
  "matching example_pkg [IDGT 4] int_rows = []"
  "matching example_pkg [IDGT 3] int_rows = [4]"
  by (simp_all add: matching_def IDGT_def Where_def selects_def example_pkg_def int_rows_def)

lemma example_Exec:
  "fst (Exec example_pkg (delete_where ps) int_rows)
     = (int (length (matching example_pkg ps int_rows)), None)"
  using Exec_no_hooks [of "delete_where ps" example_pkg int_rows]
    DeleteNodes_count [of example_pkg ps int_rows]
  by (simp add: delete_where_def)

theorem zero_rows_not_found_witness:
  "hooks (delete_where [IDGT 4]) = []
   \<and> driver (delete_where [IDGT 4]) = DeleteNodes
   \<and> matching example_pkg (predicates (mutation (delete_where [IDGT 4]))) int_rows = []
   \<and> fst (Exec example_pkg (delete_where [IDGT 4]) int_rows) = (0, None)
   \<and> store (snd (Exec example_pkg (delete_where [IDGT 4]) int_rows)) ''int_sids'' = [1, 2, 3, 4]
   \<and> fst (DeleteOne_Exec example_pkg \<lparr>isdo_isd = delete_where [IDGT 4]\<rparr> int_rows)
       = Some (NotFoundError ''int_sid'')
   \<and> fst (Exec example_pkg (delete_where [IDGT 3]) int_rows) = (1, None)
   \<and> fst (DeleteOne_Exec example_pkg \<lparr>isdo_isd = delete_where [IDGT 3]\<rparr> int_rows) = None
   \<and> fst (Exec example_pkg broken_delete int_rows) = (0, Some (OtherError ''connection lost''))
   \<and> fst (DeleteOne_Exec example_pkg \<lparr>isdo_isd = broken_delete\<rparr> int_rows)
       = Some (OtherError ''connection lost'')"
proof -
  have builder: "hooks (delete_where [IDGT 4]) = []" "driver (delete_where [IDGT 4]) = DeleteNodes"
    "predicates (mutation (delete_where [IDGT 4])) = [IDGT 4]"
    by (simp_all add: delete_where_def)
  have broken: "fst (Exec example_pkg broken_delete int_rows)
                  = (0, Some (OtherError ''connection lost''))"
    using Exec_no_hooks [of broken_delete example_pkg int_rows]
    by (simp add: broken_delete_def failing_driver_def)
  have pkg: "Table example_pkg = ''int_sids''" "Label example_pkg = ''int_sid''"
    by (simp_all add: example_pkg_def)
  have rows: "int_rows ''int_sids'' = [1, 2, 3, 4]"
    by (simp add: int_rows_def)
  show ?thesis
    using builder broken pkg rows example_matching example_Exec [of "[IDGT 4]"]
      example_Exec [of "[IDGT 3]"]
      zero_rows_not_found [of "delete_where [IDGT 4]" example_pkg int_rows 0 UninitializedHook]
      zero_rows_not_found [of "delete_where [IDGT 3]" example_pkg int_rows 1 UninitializedHook]
      zero_rows_not_found [of broken_delete example_pkg int_rows 0 "OtherError ''connection lost''"]
    by simp
qed

text \<open>
  C9. \<^verbatim>\<open>IntSIDDeleteOne.ExecX\<close> only calls \<^verbatim>\<open>ExecX\<close> of the builder it wraps: it
  panics exactly when \<^verbatim>\<open>IntSIDDelete.Exec\<close> returns a non-nil error, with that error,
  and leaves the same state. When \<^verbatim>\<open>Exec\<close> returns \<open>(0, nil)\<close> it returns normally,
  although \<^verbatim>\<open>IntSIDDeleteOne.Exec\<close> reports a \<^verbatim>\<open>NotFoundError\<close> for that outcome.
\<close>

theorem DeleteOne_ExecX_delegates:
  "fst (DeleteOne_ExecX pk isdo db)
      = (case fst (ExecX pk (isdo_isd isdo) db) of
           Panic x \<Rightarrow> Panic x
         | Returns n \<Rightarrow> Returns ())
   \<and> snd (DeleteOne_ExecX pk isdo db) = snd (ExecX pk (isdo_isd isdo) db)
   \<and> (fst (DeleteOne_ExecX pk isdo db) = Panic x
        \<longleftrightarrow> snd (fst (Exec pk (isdo_isd isdo) db)) = Some x)
   \<and> (fst (DeleteOne_ExecX pk isdo db) = Returns ()
        \<longleftrightarrow> snd (fst (Exec pk (isdo_isd isdo) db)) = None)
   \<and> (fst (Exec pk (isdo_isd isdo) db) = (0, None)
        \<longrightarrow> fst (DeleteOne_ExecX pk isdo db) = Returns ()
          \<and> fst (DeleteOne_Exec pk isdo db) = Some (NotFoundError (Label pk)))"
  by (auto simp: DeleteOne_ExecX_def ExecX_def DeleteOne_Exec_def
        split: prod.splits option.splits outcome.splits)

theorem DeleteOne_ExecX_delegates_witness:
  "fst (Exec example_pkg (delete_where [IDGT 4]) int_rows) = (0, None)
   \<and> fst (DeleteOne_ExecX example_pkg \<lparr>isdo_isd = delete_where [IDGT 4]\<rparr> int_rows) = Returns ()
   \<and> fst (DeleteOne_Exec example_pkg \<lparr>isdo_isd = delete_where [IDGT 4]\<rparr> int_rows)
       = Some (NotFoundError ''int_sid'')
   \<and> fst (DeleteOne_ExecX example_pkg \<lparr>isdo_isd = broken_delete\<rparr> int_rows)
       = Panic (OtherError ''connection lost'')"
proof -
  have zero: "fst (Exec example_pkg (delete_where [IDGT 4]) int_rows) = (0, None)"
    using example_Exec [of "[IDGT 4]"] example_matching by simp
  have broken: "snd (fst (Exec example_pkg broken_delete int_rows))
                  = Some (OtherError ''connection lost'')"
    using Exec_no_hooks [of broken_delete example_pkg int_rows]
    by (simp add: broken_delete_def failing_driver_def)
  have label: "Label example_pkg = ''int_sid''"
    by (simp add: example_pkg_def)
  show ?thesis
    using zero broken label
      DeleteOne_ExecX_delegates [of example_pkg "\<lparr>isdo_isd = delete_where [IDGT 4]\<rparr>" int_rows
        UninitializedHook, THEN conjunct2, THEN conjunct2]
      DeleteOne_ExecX_delegates [of example_pkg "\<lparr>isdo_isd = broken_delete\<rparr>" int_rows
        "OtherError ''connection lost''", THEN conjunct2, THEN conjunct2]
    by simp
qed

section \<open>The predicates of a delete\<close>

lemma apply_predicates_foldl: "apply_predicates ps sel = foldl (\<lambda>s p. p s) sel ps"
  by (induction ps arbitrary: sel) simp_all

lemma sel_conds_Where: "sel_conds (Where q s) = sel_conds s @ conds q"
  by (simp add: sel_conds_def Where_def split: option.splits)

lemma selects_Where: "selects (Where q s) r = (selects s r \<and> holds q r)"
  by (simp add: selects_def Where_def split: option.splits)

lemma sel_conds_apply:
  "sel_conds (apply_predicates (map Where qs) s) = sel_conds s @ concat (map conds qs)"
  by (induction qs arbitrary: s) (simp_all add: sel_conds_Where)

lemma selects_apply:
  "selects (apply_predicates (map Where qs) s) r
     = (selects s r \<and> list_all (\<lambda>q. holds q r) qs)"
  by (induction qs arbitrary: s) (simp_all add: selects_Where)

text \<open>
  C7. With an empty predicate list \<^verbatim>\<open>sqlExec\<close> leaves \<^verbatim>\<open>_spec.Predicate\<close> unset, and
  applying no predicate leaves a selector as it is. With one or more predicates the field holds
  the closure that applies each predicate to the selector in the order of the list. For
  predicates that each add a condition with \<^verbatim>\<open>Where\<close>, the selector then holds the tests
  of all of them in that order after the ones it had, it selects a row exactly when the row
  passed before and satisfies every one of the conditions, and the statement matches the rows
  of the table that satisfy all of them.
\<close>

theorem predicates_conjunction:
  "Predicate (delete_spec pk []) = None
   \<and> apply_predicates [] sel = sel
   \<and> (ps \<noteq> [] \<longrightarrow> Predicate (delete_spec pk ps) = Some (apply_predicates ps))
   \<and> apply_predicates ps sel = foldl (\<lambda>s p. p s) sel ps
   \<and> sel_conds (apply_predicates (map Where qs) s) = sel_conds s @ concat (map conds qs)
   \<and> selects (apply_predicates (map Where qs) s) r
       = (selects s r \<and> list_all (\<lambda>q. holds q r) qs)
   \<and> matching pk (map Where qs) db
       = filter (\<lambda>r. list_all (\<lambda>q. holds q r) qs) (db (Table pk))"
proof -
  have unset: "Predicate (delete_spec pk []) = None"
    by (simp add: delete_spec_def)
  have closure: "ps \<noteq> [] \<longrightarrow> Predicate (delete_spec pk ps) = Some (apply_predicates ps)"
    by (simp add: delete_spec_def)
  have rows: "matching pk (map Where qs) db
                = filter (\<lambda>r. list_all (\<lambda>q. holds q r) qs) (db (Table pk))"
  proof -
    have "selects (apply_predicates (map Where qs) \<lparr>sel_from = Table pk, sel_where = None\<rparr>)
            = (\<lambda>r. list_all (\<lambda>q. holds q r) qs)"
      by (rule ext) (simp add: selects_apply, simp add: selects_def)
    then show ?thesis
      by (simp add: matching_def)
  qed
  show ?thesis
    using unset closure rows apply_predicates_foldl [of ps sel] sel_conds_apply [of qs s]
      selects_apply [of qs s r]
    by simp
qed

theorem predicates_conjunction_witness:
  "[IDGT 1, IDLT 4] \<noteq> []
   \<and> Predicate (delete_spec example_pkg [IDGT 1, IDLT 4])
       = Some (apply_predicates [IDGT 1, IDLT 4])
   \<and> matching example_pkg [IDGT 1, IDLT 4] int_rows = [2, 3]
   \<and> fst (Exec example_pkg (delete_where [IDGT 1, IDLT 4]) int_rows) = (2, None)
   \<and> store (snd (Exec example_pkg (delete_where [IDGT 1, IDLT 4]) int_rows)) ''int_sids''
       = [1, 4]"
proof -
  note inst =
    predicates_conjunction
      [of example_pkg "\<lparr>sel_from = ''int_sids'', sel_where = None\<rparr>" "[IDGT 1, IDLT 4]"
          "[Cond (\<lambda>r. 1 < r), Cond (\<lambda>r. r < 4)]"
          "\<lparr>sel_from = ''int_sids'', sel_where = None\<rparr>" 2 int_rows]
  from inst have closure: "Predicate (delete_spec example_pkg [IDGT 1, IDLT 4])
       = Some (apply_predicates [IDGT 1, IDLT 4])"
    by blast
  from inst have "matching example_pkg (map Where [Cond (\<lambda>r. 1 < r), Cond (\<lambda>r. r < 4)]) int_rows
       = filter (\<lambda>r. list_all (\<lambda>q. holds q r) [Cond (\<lambda>r. 1 < r), Cond (\<lambda>r. r < 4)])
           (int_rows (Table example_pkg))"
    by blast
  then have rows: "matching example_pkg [IDGT 1, IDLT 4] int_rows = [2, 3]"
    by (simp add: IDGT_def IDLT_def example_pkg_def int_rows_def)
  have run: "fst (Exec example_pkg (delete_where [IDGT 1, IDLT 4]) int_rows) = (2, None)"
    using rows example_Exec [of "[IDGT 1, IDLT 4]"] by simp
  have left: "store (snd (Exec example_pkg (delete_where [IDGT 1, IDLT 4]) int_rows)) ''int_sids''
                = [1, 4]"
    using rows Exec_no_hooks [of "delete_where [IDGT 1, IDLT 4]" example_pkg int_rows]
      DeleteNodes_count [of example_pkg "[IDGT 1, IDLT 4]" int_rows]
    by (simp add: delete_where_def example_pkg_def int_rows_def)
  from closure rows run left show ?thesis
    by simp
qed

section \<open>The evaluation of a policy\<close>

lemma eval_rules_skip_prefix:
  "all_skip pre c op s \<Longrightarrow>
     eval_rules dflt (pre @ rs) c op s = eval_rules dflt rs c op (run_all pre c op s)"
proof (induction pre arbitrary: s)
  case Nil
  show ?case by simp
next
  case (Cons r pre)
  obtain d s1 where r: "r c op s = (d, s1)"
    by (cases "r c op s")
  with Cons.prems have "is_skip d" and "all_skip pre c op s1"
    by simp_all
  with Cons.IH [of s1] r show ?case
    by (cases d) simp_all
qed

text \<open>
  C1. Let rule \<open>i\<close> of a list be \<open>r\<close>, the rules before it \<open>pre\<close> and the rules after it
  \<open>post\<close>, and let every rule of \<open>pre\<close> skip, so that the evaluation reaches \<open>r\<close>. If
  \<open>r\<close> returns Allow the evaluation ends in Allowed; if it returns Deny with a reason, or
  any other error, it ends in Denied with that reason; in both cases the state is the one
  \<open>r\<close> left, whatever \<open>post\<close> and the configured default are: no rule after \<open>r\<close> is
  evaluated. If \<open>r\<close> returns Skip (or nil) the evaluation goes on with the first rule of
  \<open>post\<close>.
\<close>

theorem eval_rules_transition:
  assumes "all_skip pre c op s"
    and "r c op (run_all pre c op s) = (d, s1)"
  shows "eval_rules dflt (pre @ r # post) c op s =
           (case d of
              Allow \<Rightarrow> (Allowed, s1)
            | Deny reason \<Rightarrow> (Denied reason, s1)
            | Failure reason \<Rightarrow> (Denied reason, s1)
            | Skip \<Rightarrow> eval_rules dflt post c op s1
            | NoError \<Rightarrow> eval_rules dflt post c op s1)"
  using eval_rules_skip_prefix [OF assms(1), of dflt "r # post"] assms(2)
  by (cases d) simp_all

theorem eval_rules_transition_witness:
  "all_skip [logged ''r0'' Skip] background () []
   \<and> logged ''r1'' Allow background () (run_all [logged ''r0'' Skip] background () [])
       = (Allow, [''r0'', ''r1''])
   \<and> eval_rules (Denied ''by default'')
         ([logged ''r0'' Skip] @ logged ''r1'' Allow # [logged ''r2'' (Failure ''invoked'')])
         background () []
       = (Allowed, [''r0'', ''r1''])
   \<and> eval_rules Allowed
         ([logged ''r0'' Skip] @ logged ''r1'' (Deny ''no'') # [logged ''r2'' Allow])
         background () []
       = (Denied ''no'', [''r0'', ''r1''])
   \<and> eval_rules (Denied ''by default'')
         ([logged ''r0'' Skip] @ logged ''r1'' Skip # [logged ''r2'' Allow])
         background () []
       = (Allowed, [''r0'', ''r1'', ''r2''])"
proof -
  have skips: "all_skip [logged ''r0'' Skip] background () []"
    by (simp add: logged_def)
  have at: "logged ''r1'' d background () (run_all [logged ''r0'' Skip] background () [])
              = (d, [''r0'', ''r1''])" for d
    by (simp add: logged_def)
  show ?thesis
    using skips at [of Allow]
      eval_rules_transition
        [of "[logged ''r0'' Skip]" background "()" "[]" "logged ''r1'' Allow" Allow
            "[''r0'', ''r1'']" "Denied ''by default''" "[logged ''r2'' (Failure ''invoked'')]",
         OF skips at [of Allow]]
      eval_rules_transition
        [of "[logged ''r0'' Skip]" background "()" "[]" "logged ''r1'' (Deny ''no'')" "Deny ''no''"
            "[''r0'', ''r1'']" Allowed "[logged ''r2'' Allow]", OF skips at [of "Deny ''no''"]]
      eval_rules_transition
        [of "[logged ''r0'' Skip]" background "()" "[]" "logged ''r1'' Skip" Skip
            "[''r0'', ''r1'']" "Denied ''by default''" "[logged ''r2'' Allow]",
         OF skips at [of Skip]]
    by (simp add: logged_def)
qed

text \<open>
  C2. If every rule of a list returns Skip (or nil), that is, every rule is evaluated without
  returning Allow or an error, the evaluation ends in the configured default decision, after
  every rule of the list has been evaluated once, in order. The default is an explicit
  parameter of the evaluation: with Denied configured the exhausted list is denied, and with
  Allowed configured, the case that \<^verbatim>\<open>privacy.md\<close> describes, it is allowed.
\<close>

theorem eval_rules_exhausted:
  assumes "ctx_decision c = None"
    and "all_skip rs c op s"
  shows "eval_policy dflt rs c op s = (dflt, run_all rs c op s)
       \<and> eval_rules dflt rs c op s = (dflt, run_all rs c op s)"
  using assms eval_rules_skip_prefix [OF assms(2), of dflt "[]"]
  by (simp add: eval_policy_def)

theorem eval_rules_exhausted_witness:
  "all_skip [logged ''r0'' Skip, logged ''r1'' NoError] background () []
   \<and> ctx_decision background = None
   \<and> eval_policy (Denied ''by default'') [logged ''r0'' Skip, logged ''r1'' NoError]
         background () []
       = (Denied ''by default'', [''r0'', ''r1''])
   \<and> eval_policy Allowed [logged ''r0'' Skip, logged ''r1'' NoError] background () []
       = (Allowed, [''r0'', ''r1''])"
proof -
  have skips: "all_skip [logged ''r0'' Skip, logged ''r1'' NoError] background () []"
    by (simp add: logged_def)
  have unbound: "ctx_decision background = None"
    by (simp add: background_def)
  show ?thesis
    using skips unbound
      eval_rules_exhausted [OF unbound skips, of "Denied ''by default''"]
      eval_rules_exhausted [OF unbound skips, of Allowed]
    by (simp add: logged_def)
qed

text \<open>
  C3. When the context carries a bound decision, the evaluation of a policy ends in that
  decision and leaves the state as it was, whatever the rules are: no rule is evaluated. A
  context made by \<^verbatim>\<open>DecisionContext\<close> carries the decision it was given, and with Allow
  bound \<^verbatim>\<open>Execute\<close> runs the operation and succeeds, for every rule list, so also for one
  that would deny.
\<close>

theorem bound_decision_bypasses_rules:
  assumes "ctx_decision c = Some d"
  shows "eval_policy dflt rules c op s = (d, s)
       \<and> ctx_decision (DecisionContext parent d') = Some d'
       \<and> eval_policy dflt rules (DecisionContext parent d') op s = (d', s)
       \<and> Execute dflt rules (DecisionContext parent Allowed) op s apply_op
           = (Inr (fst (apply_op op s)), snd (apply_op op s))"
  using assms
  by (simp add: eval_policy_def DecisionContext_def Execute_def split: prod.splits)

theorem bound_decision_bypasses_rules_witness:
  "ctx_decision (DecisionContext background Allowed) = Some Allowed
   \<and> Execute (Denied ''by default'') [DenyIfNoViewer, AlwaysDenyRule] background () 0 create_row
       = (Inl (PolicyDenied ''viewer-context is missing''), 0)
   \<and> Execute (Denied ''by default'') [DenyIfNoViewer, AlwaysDenyRule]
         (DecisionContext background Allowed) () 0 create_row
       = (Inr ''created'', 1)
   \<and> eval_policy Allowed [logged ''r0'' (Deny ''no'')]
         (DecisionContext background (Denied ''bound'')) () []
       = (Denied ''bound'', [])"
proof -
  have bound: "ctx_decision (DecisionContext background Allowed) = Some Allowed"
    by (simp add: DecisionContext_def)
  have denied: "Execute (Denied ''by default'') [DenyIfNoViewer, AlwaysDenyRule] background ()
         (0::nat) create_row
       = (Inl (PolicyDenied ''viewer-context is missing''), 0)"
    by (simp add: Execute_def eval_policy_def background_def DenyIfNoViewer_def)
  show ?thesis
    using bound denied
      bound_decision_bypasses_rules [OF bound, of "Denied ''by default''"
        "[DenyIfNoViewer, AlwaysDenyRule]" "()" 0 background Allowed create_row]
      bound_decision_bypasses_rules [OF bound, of Allowed "[logged ''r0'' (Deny ''no'')]" "()" "[]"
        background "Denied ''bound''" "\<lambda>op s. ((), s)"]
    by (simp add: create_row_def)
qed

end
